theory Spec2Isabelle
  imports Main "HOL-Library.Char_ord" "HOL-Library.List_Lexorder" "HOL-Library.Multiset"
begin

section \<open>Python and pandas primitives used by the scripts\<close>

text \<open>
  Strings are lists of characters, compared lexicographically by character code
  (Python's \<^verbatim>\<open>str\<close> order). A character is a code point below 256; white space
  and word characters are the code points that Python classifies so in that range.
  A cell that pandas reads as NaN is \<open>None\<close> where a column can hold one.
\<close>

datatype py_error = IndexError | ValueError | TypeError

text \<open>\<^verbatim>\<open>str.isspace\<close> on one character, which is also the class \<^verbatim>\<open>\s\<close> of a
  \<^verbatim>\<open>str\<close> pattern: tab, line feed, vertical tab, form feed, carriage return, the four
  separators 0x1C..0x1F, the blank, the next-line control 0x85 and the no-break space
  0xA0.\<close>

definition is_space :: "char \<Rightarrow> bool" where
  "is_space c = (c \<in> set [CHR 0x09, CHR 0x0A, CHR 0x0B, CHR 0x0C, CHR 0x0D,
                             CHR 0x1C, CHR 0x1D, CHR 0x1E, CHR 0x1F, CHR 0x20,
                             CHR 0x85, CHR 0xA0])"

text \<open>\<^verbatim>\<open>s.strip()\<close>\<close>

definition py_strip :: "string \<Rightarrow> string" where
  "py_strip s = rev (dropWhile is_space (rev (dropWhile is_space s)))"

text \<open>\<^verbatim>\<open>s.strip(c)\<close> for a one-character argument\<close>

definition py_strip_char :: "char \<Rightarrow> string \<Rightarrow> string" where
  "py_strip_char c s = rev (dropWhile (\<lambda>x. x = c) (rev (dropWhile (\<lambda>x. x = c) s)))"

text \<open>\<^verbatim>\<open>s.split(sep)\<close> for a one-character separator: never empty, \<^verbatim>\<open>''.split('|') == ['']\<close>.\<close>

fun py_split :: "char \<Rightarrow> string \<Rightarrow> string list" where
  "py_split sep [] = [[]]"
| "py_split sep (c # cs) =
     (if c = sep then [] # py_split sep cs
      else (case py_split sep cs of
              [] \<Rightarrow> [[c]]
            | p # ps \<Rightarrow> (c # p) # ps))"

text \<open>\<^verbatim>\<open>xs.index(x)\<close>: the first position of \<open>x\<close>, ValueError when absent.\<close>

fun py_index :: "'a list \<Rightarrow> 'a \<Rightarrow> py_error + nat" where
  "py_index [] x = Inl ValueError"
| "py_index (y # ys) x =
     (if y = x then Inr 0
      else (case py_index ys x of Inl e \<Rightarrow> Inl e | Inr i \<Rightarrow> Inr (Suc i)))"

text \<open>\<^verbatim>\<open>xs[i]\<close> for a non-negative index: IndexError out of range.\<close>

definition py_get :: "'a list \<Rightarrow> nat \<Rightarrow> py_error + 'a" where
  "py_get xs i = (if i < length xs then Inr (xs ! i) else Inl IndexError)"

text \<open>\<^verbatim>\<open>xs[-1]\<close>\<close>

definition py_last :: "'a list \<Rightarrow> py_error + 'a" where
  "py_last xs = (if xs = [] then Inl IndexError else Inr (last xs))"

text \<open>\<^verbatim>\<open>sep.join(xs)\<close>\<close>

fun py_join :: "string \<Rightarrow> string list \<Rightarrow> string" where
  "py_join sep [] = []"
| "py_join sep [x] = x"
| "py_join sep (x # y # ys) = x @ sep @ py_join sep (y # ys)"

text \<open>\<^verbatim>\<open>Series.unique()\<close>: the distinct values in order of first appearance.\<close>

fun py_unique :: "'a list \<Rightarrow> 'a list" where
  "py_unique [] = []"
| "py_unique (x # xs) = x # py_unique (filter (\<lambda>y. y \<noteq> x) xs)"

text \<open>\<^verbatim>\<open>Series.dropna()\<close>\<close>

fun dropna :: "'a option list \<Rightarrow> 'a list" where
  "dropna [] = []"
| "dropna (None # xs) = dropna xs"
| "dropna (Some x # xs) = x # dropna xs"

text \<open>\<^verbatim>\<open>s.split('.')[0]\<close>: the accession without its version suffix.\<close>

definition version_stripped :: "string \<Rightarrow> string" where
  "version_stripped s = hd (py_split CHR ''.'' s)"

section \<open>AccessionTranslator: the two copies of \<^verbatim>\<open>parse_hmrg_accession\<close>\<close>

definition db_codes :: "string list" where
  "db_codes = [''ref'', ''gb'', ''emb'', ''sp'', ''tr'']"

text \<open>The \<^verbatim>\<open>for code in db_codes\<close> loop of \<^verbatim>\<open>11_run_colocalization_analysis_v6.py\<close>:
  \<open>Inr (Some a)\<close> is \<^verbatim>\<open>return a\<close> inside the loop, \<open>Inr None\<close> the loop running to
  its end, \<open>Inl e\<close> a raise.\<close>

fun accession_loop :: "string list \<Rightarrow> string list \<Rightarrow> py_error + string option" where
  "accession_loop parts [] = Inr None"
| "accession_loop parts (code # codes) =
     (if code \<in> set parts then
        (case py_index parts code of
           Inl e \<Rightarrow> Inl e
         | Inr idx \<Rightarrow>
             if length parts > idx + 1 then
               (case py_get parts (idx + 1) of
                  Inl e \<Rightarrow> Inl e
                | Inr p \<Rightarrow> Inr (Some (version_stripped p)))
             else accession_loop parts codes)
      else accession_loop parts codes)"

text \<open>The body of the \<^verbatim>\<open>try\<close> block.\<close>

definition parse_hmrg_accession_try :: "string \<Rightarrow> py_error + string" where
  "parse_hmrg_accession_try sseqid =
     (let parts = py_split CHR ''|'' (py_strip sseqid) in
      case accession_loop parts db_codes of
        Inl e \<Rightarrow> Inl e
      | Inr (Some a) \<Rightarrow> Inr a
      | Inr None \<Rightarrow>
          if length parts > 3 then py_get parts 3
          else Inr ''unknown_accession'')"

text \<open>\<^verbatim>\<open>parse_hmrg_accession\<close> of the colocalization script: the bare \<^verbatim>\<open>except\<close>
  turns every raise of the body into the sentinel.\<close>

definition parse_hmrg_accession :: "string \<Rightarrow> string" where
  "parse_hmrg_accession sseqid =
     (case parse_hmrg_accession_try sseqid of
        Inl e \<Rightarrow> ''parse_error''
      | Inr a \<Rightarrow> a)"

text \<open>The loop of \<^verbatim>\<open>12_analyze_abundance_v3.py\<close>: it returns
  \<^verbatim>\<open>parts[parts.index(code) + 1].split('.')[0]\<close> with no test of the length.\<close>

fun accession_loop_abundance :: "string list \<Rightarrow> string list \<Rightarrow> py_error + string option" where
  "accession_loop_abundance parts [] = Inr None"
| "accession_loop_abundance parts (code # codes) =
     (if code \<in> set parts then
        (case py_index parts code of
           Inl e \<Rightarrow> Inl e
         | Inr idx \<Rightarrow>
             (case py_get parts (idx + 1) of
                Inl e \<Rightarrow> Inl e
              | Inr p \<Rightarrow> Inr (Some (version_stripped p))))
      else accession_loop_abundance parts codes)"

definition parse_hmrg_accession_abundance_try :: "string \<Rightarrow> py_error + string" where
  "parse_hmrg_accession_abundance_try sseqid =
     (let parts = py_split CHR ''|'' (py_strip sseqid) in
      case accession_loop_abundance parts db_codes of
        Inl e \<Rightarrow> Inl e
      | Inr (Some a) \<Rightarrow> Inr a
      | Inr None \<Rightarrow>
          if length parts > 3 then py_get parts 3
          else Inr ''unknown_accession'')"

definition parse_hmrg_accession_abundance :: "string \<Rightarrow> string" where
  "parse_hmrg_accession_abundance sseqid =
     (case parse_hmrg_accession_abundance_try sseqid of
        Inl e \<Rightarrow> ''parse_error''
      | Inr a \<Rightarrow> a)"

section \<open>HeaderParser and AnnotationMapBuilder (\<^verbatim>\<open>10.5_create_hmrg_annotation_map.py\<close>)\<close>

text \<open>
  The two compiled patterns are modelled by what they match when anchored at the start
  of a suffix of the header, and \<^verbatim>\<open>pattern.search\<close> by trying the suffixes from left
  to right, which gives the leftmost match.

  \<^verbatim>\<open>\[([^\]]+)\]\s*$\<close>: after the opening bracket the greedy class takes the longest
  run of characters other than the closing bracket; giving characters back cannot help,
  since the next pattern item is the closing bracket itself. \<^verbatim>\<open>\s*$\<close> then succeeds
  exactly when all that follows is white space (\<^verbatim>\<open>$\<close> also matches before a final line
  feed, which is white space).
\<close>

definition bracket_match_at :: "string \<Rightarrow> string option" where
  "bracket_match_at s =
     (case s of
        [] \<Rightarrow> None
      | c # rest \<Rightarrow>
          if c \<noteq> CHR ''['' then None
          else
            (let body = takeWhile (\<lambda>x. x \<noteq> CHR '']'') rest;
                 after = dropWhile (\<lambda>x. x \<noteq> CHR '']'') rest
             in if body = [] then None
                else (case after of
                        [] \<Rightarrow> None
                      | d # tail \<Rightarrow> if list_all is_space tail then Some body else None)))"

text \<open>\<^verbatim>\<open>\w\<close> of a \<^verbatim>\<open>str\<close> pattern, the underscore and every character that
  \<^verbatim>\<open>str.isalnum\<close> accepts: the ASCII digits and letters, and above ASCII the letters
  0xAA, 0xB5, 0xBA, 0xC0..0xD6, 0xD8..0xF6, 0xF8..0xFF and the numeric characters 0xB2, 0xB3,
  0xB9, 0xBC, 0xBD, 0xBE. Then the class \<^verbatim>\<open>[\w\(\)\-\_/\.]\<close> of the \<^verbatim>\<open>GN=\<close> pattern.\<close>

definition is_word_char :: "char \<Rightarrow> bool" where
  "is_word_char c =
     (let n = (of_char c :: nat) in
        (0x30 \<le> n \<and> n \<le> 0x39) \<or> (0x41 \<le> n \<and> n \<le> 0x5A) \<or> n = 0x5F \<or>
        (0x61 \<le> n \<and> n \<le> 0x7A) \<or>
        n \<in> set [0xAA, 0xB2, 0xB3, 0xB5, 0xB9, 0xBA, 0xBC, 0xBD, 0xBE] \<or>
        (0xC0 \<le> n \<and> n \<le> 0xD6) \<or> (0xD8 \<le> n \<and> n \<le> 0xF6) \<or> 0xF8 \<le> n)"

definition gn_char :: "char \<Rightarrow> bool" where
  "gn_char c = (is_word_char c \<or> c \<in> set ''()-_/.'')"

definition gn_match_at :: "string \<Rightarrow> string option" where
  "gn_match_at s =
     (if take 3 s = ''GN='' then
        (let g = takeWhile gn_char (drop 3 s) in if g = [] then None else Some g)
      else None)"

fun re_search :: "(string \<Rightarrow> 'a option) \<Rightarrow> string \<Rightarrow> 'a option" where
  "re_search m [] = m []"
| "re_search m (c # cs) =
     (case m (c # cs) of
        Some g \<Rightarrow> Some g
      | None \<Rightarrow> re_search m cs)"

text \<open>Python truth of a value that is \<^verbatim>\<open>None\<close> or a string.\<close>

fun truthy :: "string option \<Rightarrow> bool" where
  "truthy None = False"
| "truthy (Some s) = (s \<noteq> [])"

text \<open>The loop over \<^verbatim>\<open>db_codes\<close> in \<^verbatim>\<open>process_header\<close>: \<^verbatim>\<open>break\<close> at the first
  code that is followed by a field; \<^verbatim>\<open>except ValueError: continue\<close> goes on with the
  next code. \<^verbatim>\<open>parts[idx + 1]\<close> is read under the test of the length.\<close>

fun header_accession_loop :: "string list \<Rightarrow> string list \<Rightarrow> string option" where
  "header_accession_loop parts [] = None"
| "header_accession_loop parts (code # codes) =
     (if code \<in> set parts then
        (case py_index parts code of
           Inl e \<Rightarrow> header_accession_loop parts codes
         | Inr idx \<Rightarrow>
             if length parts > idx + 1 then Some (parts ! (idx + 1))
             else header_accession_loop parts codes)
      else header_accession_loop parts codes)"

definition process_header :: "string \<Rightarrow> string option \<times> string option" where
  "process_header header0 =
     (let header = py_strip_char CHR ''>'' (py_strip header0);
          gene_name1 = (case re_search bracket_match_at header of
                          Some g \<Rightarrow> Some g
                        | None \<Rightarrow> re_search gn_match_at header);
          parts = py_split CHR ''|'' header;
          accession1 = header_accession_loop parts db_codes;
          accession2 = (if \<not> truthy accession1 \<and> length parts > 3
                        then Some (parts ! 3) else accession1);
          gene_name2 = (if \<not> truthy accession1 \<and> length parts > 3 \<and> \<not> truthy gene_name1
                        then Some (parts ! 1) else gene_name1);
          gene_name3 = (if \<not> truthy gene_name2 \<and> truthy accession2
                        then map_option version_stripped accession2 else gene_name2)
      in (accession2, gene_name3))"

text \<open>A Python \<^verbatim>\<open>dict\<close> with string keys, in insertion order: storing under a key that
  is present replaces the value in place.\<close>

fun dict_set :: "(string \<times> 'v) list \<Rightarrow> string \<Rightarrow> 'v \<Rightarrow> (string \<times> 'v) list" where
  "dict_set [] k v = [(k, v)]"
| "dict_set ((k', v') # d) k v =
     (if k' = k then (k, v) # d else (k', v') # dict_set d k v)"

text \<open>The loop of \<^verbatim>\<open>main\<close> over the lines of the FASTA file, filling
  \<^verbatim>\<open>annotation_map\<close>.\<close>

fun annotation_map_loop :: "(string \<times> string) list \<Rightarrow> string list \<Rightarrow> (string \<times> string) list" where
  "annotation_map_loop d [] = d"
| "annotation_map_loop d (line # lines) =
     (if take 1 line = ''>'' then
        (case process_header line of
           (Some accession, Some gene_name) \<Rightarrow>
             if accession \<noteq> [] \<and> gene_name \<noteq> [] then
               annotation_map_loop
                 (dict_set (dict_set d accession gene_name) (version_stripped accession) gene_name)
                 lines
             else annotation_map_loop d lines
         | _ \<Rightarrow> annotation_map_loop d lines)
      else annotation_map_loop d lines)"

text \<open>\<^verbatim>\<open>unique_map\<close>, the dict comprehension whose items are written to the table.\<close>

definition unique_map :: "(string \<times> string) list \<Rightarrow> (string \<times> string) list" where
  "unique_map annotation_map =
     fold (\<lambda>(acc, name) u. dict_set u (version_stripped acc) name) annotation_map []"

definition create_hmrg_annotation_map :: "string list \<Rightarrow> (string \<times> string) list" where
  "create_hmrg_annotation_map lines = unique_map (annotation_map_loop [] lines)"

text \<open>A property of the text before a trailing bracketed token, used to state when the
  bracket pattern finds that token: every opening bracket of the text is followed, later
  in the text, by a closing one.\<close>

fun brackets_closed :: "string \<Rightarrow> bool" where
  "brackets_closed [] = True"
| "brackets_closed (c # cs) =
     ((if c = CHR ''['' then CHR '']'' \<in> set cs else True) \<and> brackets_closed cs)"

section \<open>pandas frames\<close>

text \<open>
  A frame is the list of its rows, in row order; a cell that can be NaN is an option.
  The scripts call \<^verbatim>\<open>sort_values\<close> with numpy's default sorting routine, which is not
  stable: the order it gives to rows of equal key is not fixed by the scripts. The sort
  is therefore a parameter of every function that sorts, and a theorem about such a
  function assumes of it what pandas promises, stated here for the frame \<open>xs\<close> and the
  result \<open>ys\<close>: the rows are the same, and the keys descend.
\<close>

definition sort_values_desc :: "('a \<Rightarrow> 'k::linorder) \<Rightarrow> 'a list \<Rightarrow> 'a list \<Rightarrow> bool" where
  "sort_values_desc key xs ys = (mset ys = mset xs \<and> sorted (rev (map key ys)))"

text \<open>The same for a column that can hold NaN: with \<^verbatim>\<open>na_position='last'\<close>, the default,
  the rows without a key follow the sorted ones, in their order in the frame.\<close>

definition sort_values_desc_na :: "('a \<Rightarrow> 'k::linorder option) \<Rightarrow> 'a list \<Rightarrow> 'a list \<Rightarrow> bool" where
  "sort_values_desc_na key xs ys =
     (let n = length (filter (\<lambda>r. key r \<noteq> None) xs) in
      sort_values_desc (\<lambda>r. the (key r)) (filter (\<lambda>r. key r \<noteq> None) xs) (take n ys) \<and>
      drop n ys = filter (\<lambda>r. key r = None) xs)"

text \<open>\<^verbatim>\<open>drop_duplicates(col)\<close>, which keeps the first row of every value of the column;
  two NaN count as the same value.\<close>

fun drop_duplicates :: "('a \<Rightarrow> 'k) \<Rightarrow> 'a list \<Rightarrow> 'a list" where
  "drop_duplicates key [] = []"
| "drop_duplicates key (r # rs) = r # drop_duplicates key (filter (\<lambda>x. key x \<noteq> key r) rs)"

text \<open>\<^verbatim>\<open>groupby(col)\<close>: the groups come in the sorted order of their keys, every group
  holds its rows in frame order, and the rows whose key is NaN belong to no group.\<close>

definition groupby_keys :: "('a \<Rightarrow> 'k::linorder option) \<Rightarrow> 'a list \<Rightarrow> 'k list" where
  "groupby_keys key rows = sort (remdups (dropna (map key rows)))"

definition groupby :: "('a \<Rightarrow> 'k::linorder option) \<Rightarrow> 'a list \<Rightarrow> ('k \<times> 'a list) list" where
  "groupby key rows =
     map (\<lambda>k. (k, filter (\<lambda>r. key r = Some k) rows)) (groupby_keys key rows)"

text \<open>\<^verbatim>\<open>str(x)\<close> and \<^verbatim>\<open>astype(str)\<close> on a cell that is text or NaN.\<close>

definition py_str :: "string option \<Rightarrow> string" where
  "py_str x = (case x of None \<Rightarrow> ''nan'' | Some s \<Rightarrow> s)"

text \<open>A \<^verbatim>\<open>Counter\<close> that was filled with the elements of \<open>xs\<close>, one after the other, and
  the count of every distinct value of a column: the items are the distinct elements in
  the order of their first occurrence, each with the number of its occurrences.\<close>

definition counter_items :: "'a list \<Rightarrow> ('a \<times> nat) list" where
  "counter_items xs = map (\<lambda>x. (x, count_list xs x)) (py_unique xs)"


section \<open>Colocalization (\<^verbatim>\<open>11_run_colocalization_analysis_v6.py\<close>)\<close>

text \<open>A row of a hit file read with \<^verbatim>\<open>usecols=[0, 1, 2, 10, 11]\<close> and \<^verbatim>\<open>dtype=str\<close>:
  every cell is text or NaN, the bit score too. The abundance script reads the first two
  columns only.\<close>

record raw_hit =
  protein_id :: "string option"
  sseqid :: "string option"

record hit_row = raw_hit +
  pident :: "string option"
  evalue :: "string option"
  bitscore :: "string option"

text \<open>\<^verbatim>\<open>pd.read_csv(...).sort_values('bitscore', ascending=False).drop_duplicates('protein_id')\<close>
  on the rows of the file. The keys of the sort are strings, so Python compares them as
  strings.\<close>

definition load_hits :: "(hit_row list \<Rightarrow> hit_row list) \<Rightarrow> hit_row list \<Rightarrow> hit_row list" where
  "load_hits sort_values rows = drop_duplicates protein_id (sort_values rows)"

text \<open>\<^verbatim>\<open>parse_card_gene_name\<close>: a NaN cell has no \<^verbatim>\<open>strip\<close>, and the bare \<^verbatim>\<open>except\<close>
  answers.\<close>

definition parse_card_gene_name :: "string option \<Rightarrow> string" where
  "parse_card_gene_name cell =
     (case cell of
        None \<Rightarrow> ''unknown_arg''
      | Some s \<Rightarrow>
          (case py_last (py_split CHR ''|'' (py_strip s)) of
             Inl e \<Rightarrow> ''unknown_arg''
           | Inr g \<Rightarrow> g))"

text \<open>\<^verbatim>\<open>s.rsplit('_', n=1)[0]\<close>: the text before the last underscore, the whole text
  when it has none.\<close>

definition rsplit_head :: "string \<Rightarrow> string" where
  "rsplit_head s =
     (if CHR ''_'' \<in> set s then rev (tl (dropWhile (\<lambda>c. c \<noteq> CHR ''_'') (rev s))) else s)"

text \<open>A row of \<^verbatim>\<open>df_annotations\<close>: the hit and the columns that the script adds. The
  translation table is a dict; a key that is absent and a key whose name is NaN are the same
  to \<^verbatim>\<open>map(hmrg_map).fillna(...)\<close>, and both are \<open>None\<close> here.\<close>

record annotation =
  hit :: hit_row
  accession :: "string option"
  gene_name :: string
  gene_type :: string
  contig_id :: "string option"

definition df_card :: "(hit_row list \<Rightarrow> hit_row list) \<Rightarrow> hit_row list \<Rightarrow> annotation list" where
  "df_card sort_values rows =
     map (\<lambda>h. \<lparr>hit = h, accession = None, gene_name = parse_card_gene_name (sseqid h),
                gene_type = ''ARG'', contig_id = map_option rsplit_head (protein_id h)\<rparr>)
         (load_hits sort_values rows)"

definition df_bacmet ::
  "(hit_row list \<Rightarrow> hit_row list) \<Rightarrow> (string \<Rightarrow> string option) \<Rightarrow> hit_row list \<Rightarrow> annotation list" where
  "df_bacmet sort_values hmrg_map rows =
     map (\<lambda>h. let acc = parse_hmrg_accession (py_str (sseqid h)) in
               \<lparr>hit = h, accession = Some acc,
                gene_name = (case hmrg_map acc of None \<Rightarrow> acc | Some g \<Rightarrow> g),
                gene_type = ''HMRG'', contig_id = map_option rsplit_head (protein_id h)\<rparr>)
         (load_hits sort_values rows)"

definition df_annotations ::
  "(hit_row list \<Rightarrow> hit_row list) \<Rightarrow> (string \<Rightarrow> string option) \<Rightarrow> hit_row list \<Rightarrow> hit_row list
     \<Rightarrow> annotation list" where
  "df_annotations sort_values hmrg_map card_hits bacmet_hits =
     df_card sort_values card_hits @ df_bacmet sort_values hmrg_map bacmet_hits"

text \<open>\<^verbatim>\<open>contig_summary\<close>, the gene types of every contig, and \<^verbatim>\<open>colocalized_contigs\<close>.\<close>

definition contig_summary :: "annotation list \<Rightarrow> (string \<times> string set) list" where
  "contig_summary anns =
     map (\<lambda>(c, grp). (c, set (py_unique (map gene_type grp)))) (groupby contig_id anns)"

definition colocalized_contigs :: "annotation list \<Rightarrow> string set" where
  "colocalized_contigs anns =
     set (map fst (filter (\<lambda>(c, x). ''ARG'' \<in> x \<and> ''HMRG'' \<in> x) (contig_summary anns)))"

text \<open>
  \<^verbatim>\<open>analyze_sample\<close> up to the end of its step 3. A file is absent, or
  \<^verbatim>\<open>read_csv\<close> raises on it, or it is read as a table. The GFF file is tested for
  existence with the two hit files and read in step 4 only. The outcomes: the sample is
  skipped with a warning; the information that no contig is colocalized is printed and
  the function returns; the function goes on to steps 4 and 5 with the colocalized
  contigs, where the report is written; or an exception reaches the \<^verbatim>\<open>except\<close> of the
  function and is printed.
\<close>

datatype 'a input_file = Absent | Malformed | Table "'a list"

datatype outcome = Skipped | Info_no_colocalized | Reporting "string set" | Error_logged

definition analyze_sample ::
  "(hit_row list \<Rightarrow> hit_row list) \<Rightarrow> (string \<Rightarrow> string option) \<Rightarrow>
     hit_row input_file \<Rightarrow> hit_row input_file \<Rightarrow> 'g input_file \<Rightarrow> outcome" where
  "analyze_sample sort_values hmrg_map card_file bacmet_file gff_file =
     (if card_file = Absent \<or> bacmet_file = Absent \<or> gff_file = Absent then Skipped
      else
        (case card_file of
           Table card_hits \<Rightarrow>
             (case bacmet_file of
                Table bacmet_hits \<Rightarrow>
                  (let contigs =
                         colocalized_contigs
                           (df_annotations sort_values hmrg_map card_hits bacmet_hits)
                   in if contigs = {} then Info_no_colocalized else Reporting contigs)
              | _ \<Rightarrow> Error_logged)
         | _ \<Rightarrow> Error_logged))"

section \<open>The detailed report and its readers\<close>

text \<open>
  A row of the detailed report as scripts 12, 13 and 14 read it: the columns are text,
  and an empty cell is NaN. The names carry a prime to keep them apart from the columns
  of the hit files.
\<close>

record detail_row =
  contig_id' :: "string option"
  protein_id' :: "string option"
  start' :: "string option"
  end' :: "string option"
  strand' :: "string option"
  gene_type' :: "string option"
  gene_name' :: "string option"
  pident' :: "string option"
  evalue' :: "string option"
  bitscore' :: "string option"

subsection \<open>Abundance (\<^verbatim>\<open>12_analyze_abundance_v3.py\<close>)\<close>






text \<open>\<^verbatim>\<open>process_hmrg_abundance\<close> on the rows of the raw hit file: the gene name of a hit is
  the name that the table gives to its accession, the accession itself when the table
  has none; \<^verbatim>\<open>value_counts\<close> counts the names and sorts the counts, largest first.\<close>

definition hmrg_gene_name :: "(string \<Rightarrow> string option) \<Rightarrow> raw_hit \<Rightarrow> string" where
  "hmrg_gene_name hmrg_map r =
     (let acc = parse_hmrg_accession_abundance (py_str (sseqid r)) in
      case hmrg_map acc of None \<Rightarrow> acc | Some g \<Rightarrow> g)"

definition process_hmrg_abundance ::
  "((string \<times> nat) list \<Rightarrow> (string \<times> nat) list) \<Rightarrow> (string \<Rightarrow> string option) \<Rightarrow> raw_hit list
     \<Rightarrow> (string \<times> nat) list" where
  "process_hmrg_abundance sort_values hmrg_map rows =
     sort_values (counter_items (map (hmrg_gene_name hmrg_map) rows))"

subsection \<open>Merging double annotations (\<^verbatim>\<open>13_prepare_cluster_data_v4.py\<close>)\<close>

text \<open>\<^verbatim>\<open>aggregate_duplicates\<close> on one group. \<^verbatim>\<open>group.iloc[0]\<close> raises on an empty group;
  \<^verbatim>\<open>groupby\<close> makes none.\<close>

definition aggregate_duplicates :: "detail_row list \<Rightarrow> py_error + detail_row" where
  "aggregate_duplicates grp =
     (case grp of
        [] \<Rightarrow> Inl IndexError
      | r # rest \<Rightarrow>
          if length grp = 1 then Inr r
          else Inr (r\<lparr>gene_type' := Some (py_join ''/'' (sort (py_unique (map (\<lambda>x. py_str (gene_type' x)) grp)))),
                      gene_name' := Some (py_join '' / '' (py_unique (dropna (map gene_name' grp))))\<rparr>))"

text \<open>\<^verbatim>\<open>apply\<close> over the groups: the first exception ends it.\<close>

fun apply_groups :: "('g \<Rightarrow> py_error + 'b) \<Rightarrow> 'g list \<Rightarrow> py_error + 'b list" where
  "apply_groups f [] = Inr []"
| "apply_groups f (g # gs) =
     (case f g of
        Inl e \<Rightarrow> Inl e
      | Inr b \<Rightarrow> (case apply_groups f gs of Inl e \<Rightarrow> Inl e | Inr bs \<Rightarrow> Inr (b # bs)))"

text \<open>\<^verbatim>\<open>df_final_deduplicated\<close>: the rows whose gene type is not \<^verbatim>\<open>Other\<close> are grouped
  by protein and merged, and the rows of type \<^verbatim>\<open>Other\<close> are appended as they are.\<close>

definition df_final_deduplicated :: "detail_row list \<Rightarrow> py_error + detail_row list" where
  "df_final_deduplicated df_details =
     (case apply_groups (\<lambda>g. aggregate_duplicates (snd g))
             (groupby protein_id' (filter (\<lambda>r. gene_type' r \<noteq> Some ''Other'') df_details)) of
        Inl e \<Rightarrow> Inl e
      | Inr df_deduplicated_annotated \<Rightarrow>
          Inr (df_deduplicated_annotated @ filter (\<lambda>r. gene_type' r = Some ''Other'') df_details))"

subsection \<open>The densest contigs (\<^verbatim>\<open>14_filter_top_clusters-v3.py\<close>)\<close>







text \<open>\<^verbatim>\<open>aggregate_duplicates\<close> of this script. It joins the gene types as they are: a
  NaN among them cannot be compared with a string nor joined, and raises.\<close>

definition aggregate_duplicates_top :: "detail_row list \<Rightarrow> py_error + detail_row list" where
  "aggregate_duplicates_top grp =
     (case grp of
        [] \<Rightarrow> Inl IndexError
      | r # rest \<Rightarrow>
          if length grp = 1 then Inr grp
          else if None \<in> set (map gene_type' grp) then Inl TypeError
          else Inr [r\<lparr>gene_type' := Some (py_join ''/'' (sort (py_unique (dropna (map gene_type' grp))))),
                       gene_name' := Some (py_join '' / '' (py_unique (dropna (map gene_name' grp))))\<rparr>])"

text \<open>\<^verbatim>\<open>df_deduplicated\<close>: every row of the chosen contigs is grouped by protein, the
  rows of type \<^verbatim>\<open>Other\<close> too.\<close>

definition df_deduplicated :: "detail_row list \<Rightarrow> py_error + detail_row list" where
  "df_deduplicated df_plot_data =
     (case apply_groups (\<lambda>g. aggregate_duplicates_top (snd g)) (groupby protein_id' df_plot_data) of
        Inl e \<Rightarrow> Inl e
      | Inr frames \<Rightarrow> Inr (concat frames))"

definition df_plot_data :: "string set \<Rightarrow> detail_row list \<Rightarrow> detail_row list" where
  "df_plot_data contigs df_details =
     filter (\<lambda>r. case contig_id' r of None \<Rightarrow> False | Some c \<Rightarrow> c \<in> contigs) df_details"

section \<open>Facts about the primitives\<close>

lemma py_split_not_Nil: "py_split sep s \<noteq> []"
  by (induction s) (auto split: list.splits)

lemma py_index_Inr: "x \<in> set xs \<Longrightarrow> \<exists>i. py_index xs x = Inr i \<and> i < length xs"
  by (induction xs) (auto split: sum.splits)

section \<open>AccessionTranslator\<close>

lemma accession_loop_no_raise: "\<exists>r. accession_loop parts codes = Inr r"
proof (induction codes)
  case Nil
  show ?case by simp
next
  case (Cons code codes)
  from Cons obtain r where r: "accession_loop parts codes = Inr r" by blast
  show ?case
  proof (cases "code \<in> set parts")
    case True
    from py_index_Inr [OF True] obtain i where i: "py_index parts code = Inr i" "i < length parts"
      by blast
    show ?thesis
    proof (cases "length parts > i + 1")
      case True
      with \<open>code \<in> set parts\<close> i show ?thesis by (simp add: py_get_def)
    next
      case False
      with \<open>code \<in> set parts\<close> i r show ?thesis by simp
    qed
  next
    case False
    with r show ?thesis by simp
  qed
qed

lemma parse_hmrg_accession_try_no_raise: "\<exists>r. parse_hmrg_accession_try s = Inr r"
proof -
  obtain r where "accession_loop (py_split CHR ''|'' (py_strip s)) db_codes = Inr r"
    using accession_loop_no_raise by blast
  then show ?thesis
    by (cases r) (simp_all add: parse_hmrg_accession_try_def Let_def py_get_def)
qed

lemma accession_loop_absent:
  "\<forall>code \<in> set codes. code \<notin> set parts \<Longrightarrow> accession_loop parts codes = Inr None"
  by (induction codes) simp_all

lemma accession_loop_abundance_absent:
  "\<forall>code \<in> set codes. code \<notin> set parts \<Longrightarrow> accession_loop_abundance parts codes = Inr None"
  by (induction codes) simp_all

text \<open>
  Claim C9. The extraction is total. In the colocalization script the body of the
  \<^verbatim>\<open>try\<close> never raises, so the function returns what the body returns; in the
  abundance script every raise of the body ends as the sentinel \<^verbatim>\<open>parse_error\<close>.
  In both, when none of the codes \<^verbatim>\<open>ref\<close>, \<^verbatim>\<open>gb\<close>, \<^verbatim>\<open>emb\<close>, \<^verbatim>\<open>sp\<close>, \<^verbatim>\<open>tr\<close> is a
  field of the stripped subject id and the split has at most 3 fields, the result is
  \<^verbatim>\<open>unknown_accession\<close>.
\<close>

theorem parse_hmrg_accession_total:
  "(\<exists>r. parse_hmrg_accession_try s = Inr r \<and> parse_hmrg_accession s = r) \<and>
   (\<forall>e. parse_hmrg_accession_abundance_try s = Inl e \<longrightarrow>
        parse_hmrg_accession_abundance s = ''parse_error'') \<and>
   ((\<forall>code \<in> set db_codes. code \<notin> set (py_split CHR ''|'' (py_strip s))) \<and>
    length (py_split CHR ''|'' (py_strip s)) \<le> 3 \<longrightarrow>
      parse_hmrg_accession s = ''unknown_accession'' \<and>
      parse_hmrg_accession_abundance s = ''unknown_accession'')"
proof (intro conjI impI allI)
  show "\<exists>r. parse_hmrg_accession_try s = Inr r \<and> parse_hmrg_accession s = r"
    using parse_hmrg_accession_try_no_raise [of s] by (auto simp: parse_hmrg_accession_def)
next
  fix e assume "parse_hmrg_accession_abundance_try s = Inl e"
  then show "parse_hmrg_accession_abundance s = ''parse_error''"
    by (simp add: parse_hmrg_accession_abundance_def)
next
  assume a: "(\<forall>code \<in> set db_codes. code \<notin> set (py_split CHR ''|'' (py_strip s))) \<and>
    length (py_split CHR ''|'' (py_strip s)) \<le> 3"
  then show "parse_hmrg_accession s = ''unknown_accession''"
    by (simp add: parse_hmrg_accession_def parse_hmrg_accession_try_def accession_loop_absent)
  from a show "parse_hmrg_accession_abundance s = ''unknown_accession''"
    by (simp add: parse_hmrg_accession_abundance_def parse_hmrg_accession_abundance_try_def
        accession_loop_abundance_absent)
qed

theorem parse_hmrg_accession_total_witness:
  "parse_hmrg_accession ''BAC0001|abeM'' = ''unknown_accession'' \<and>
   parse_hmrg_accession_abundance ''BAC0001|abeM'' = ''unknown_accession'' \<and>
   parse_hmrg_accession_abundance_try ''gi|123|ref'' = Inl IndexError \<and>
   parse_hmrg_accession_abundance ''gi|123|ref'' = ''parse_error''"
proof -
  have p: "py_split CHR ''|'' (py_strip ''BAC0001|abeM'') = [''BAC0001'', ''abeM'']"
    by code_simp
  have h: "(\<forall>code \<in> set db_codes. code \<notin> set (py_split CHR ''|'' (py_strip ''BAC0001|abeM''))) \<and>
      length (py_split CHR ''|'' (py_strip ''BAC0001|abeM'')) \<le> 3"
    unfolding p by (simp add: db_codes_def)
  have e: "parse_hmrg_accession_abundance_try ''gi|123|ref'' = Inl IndexError"
    by code_simp
  note a = parse_hmrg_accession_total [of "''BAC0001|abeM''",
      THEN conjunct2, THEN conjunct2, THEN mp, OF h]
  note b = parse_hmrg_accession_total [of "''gi|123|ref''",
      THEN conjunct2, THEN conjunct1, THEN spec, THEN mp, OF e]
  from a b e show ?thesis by simp
qed

text \<open>
  Claim C2 says that the two copies of \<^verbatim>\<open>parse_hmrg_accession\<close> agree on every
  subject id. On \<^verbatim>\<open>gi|123|ref\<close>, where the code \<^verbatim>\<open>ref\<close> is the last field, the
  colocalization script tests the length, falls through and returns
  \<^verbatim>\<open>unknown_accession\<close>; the abundance script indexes past the end, and its bare
  \<^verbatim>\<open>except\<close> returns \<^verbatim>\<open>parse_error\<close>.
\<close>

theorem parse_hmrg_accession_copies_differ:
  "parse_hmrg_accession ''gi|123|ref'' = ''unknown_accession'' \<and>
   parse_hmrg_accession_abundance ''gi|123|ref'' = ''parse_error''"
  by code_simp

section \<open>HeaderParser and AnnotationMapBuilder\<close>

lemma rstrip_append:
  "\<not> P z \<Longrightarrow> rev (dropWhile P (rev (p @ z # r))) = p @ z # rev (dropWhile P (rev r))"
  by (simp add: dropWhile_append)

lemma py_split_append:
  "sep \<notin> set a \<Longrightarrow> py_split sep (a @ sep # b) = a # py_split sep b"
  by (induction a) (auto split: list.splits)

lemma header_prefix_kept:
  "\<exists>r. py_strip_char CHR ''>'' (py_strip (''>gi|123|ref|WP_999.1|'' @ rest)) =
     ''gi|123|ref|WP_999.1|'' @ r"
proof -
  have a: "''>gi|123|ref|WP_999.1|'' @ rest = ''>gi|123|ref|WP_999.1'' @ CHR ''|'' # rest"
    by simp
  have ns: "\<not> is_space CHR ''|''" "\<not> is_space CHR ''>''"
    by (simp_all add: is_space_def)
  have "dropWhile is_space (''>gi|123|ref|WP_999.1'' @ CHR ''|'' # rest) =
      ''>gi|123|ref|WP_999.1'' @ CHR ''|'' # rest"
    using ns by simp
  then have "py_strip (''>gi|123|ref|WP_999.1|'' @ rest) =
      rev (dropWhile is_space (rev (''>gi|123|ref|WP_999.1'' @ CHR ''|'' # rest)))"
    unfolding py_strip_def a by (rule arg_cong)
  also have "\<dots> = ''>gi|123|ref|WP_999.1'' @ CHR ''|'' # rev (dropWhile is_space (rev rest))"
    by (rule rstrip_append) (rule ns)
  finally have s: "py_strip (''>gi|123|ref|WP_999.1|'' @ rest) =
      ''>gi|123|ref|WP_999.1'' @ CHR ''|'' # rev (dropWhile is_space (rev rest))" .
  define r1 where "r1 = rev (dropWhile is_space (rev rest))"
  have d: "dropWhile (\<lambda>x. x = CHR ''>'') (''>gi|123|ref|WP_999.1'' @ CHR ''|'' # r1) =
      ''gi|123|ref|WP_999.1'' @ CHR ''|'' # r1"
    by simp
  have "py_strip_char CHR ''>'' (''>gi|123|ref|WP_999.1'' @ CHR ''|'' # r1) =
      ''gi|123|ref|WP_999.1'' @ CHR ''|'' # rev (dropWhile (\<lambda>x. x = CHR ''>'') (rev r1))"
    unfolding py_strip_char_def d
    by (rule rstrip_append) simp
  with s show ?thesis unfolding r1_def by simp
qed

lemma split_header_prefix:
  "py_split CHR ''|'' (''gi|123|ref|WP_999.1|'' @ r) =
     ''gi'' # ''123'' # ''ref'' # ''WP_999.1'' # py_split CHR ''|'' r"
proof -
  have "''gi|123|ref|WP_999.1|'' @ r =
      ''gi'' @ CHR ''|'' # ''123'' @ CHR ''|'' # ''ref'' @ CHR ''|'' # ''WP_999.1'' @ CHR ''|'' # r"
    by simp
  then show ?thesis
    by (simp only: py_split_append) (simp add: py_split_append)
qed

lemma bracket_match_at_nonempty: "bracket_match_at s = Some g \<Longrightarrow> g \<noteq> []"
  by (auto simp: bracket_match_at_def Let_def split: list.splits if_splits)

lemma gn_match_at_nonempty: "gn_match_at s = Some g \<Longrightarrow> g \<noteq> []"
  by (auto simp: gn_match_at_def Let_def split: if_splits)

lemma re_search_nonempty:
  "(\<And>s g. m s = Some g \<Longrightarrow> g \<noteq> []) \<Longrightarrow> re_search m h = Some g \<Longrightarrow> g \<noteq> ([]::string)"
  by (induction h) (auto split: option.splits)

lemma header_accession_loop_ref:
  "header_accession_loop (''gi'' # ''123'' # ''ref'' # ''WP_999.1'' # ps) db_codes =
     Some ''WP_999.1''"
  by (simp add: db_codes_def)

lemma process_header_ref:
  "\<exists>g. g \<noteq> [] \<and>
       process_header (''>gi|123|ref|WP_999.1|'' @ rest) = (Some ''WP_999.1'', Some g)"
proof -
  obtain r where r: "py_strip_char CHR ''>'' (py_strip (''>gi|123|ref|WP_999.1|'' @ rest)) =
      ''gi|123|ref|WP_999.1|'' @ r"
    using header_prefix_kept by blast
  define h where "h = ''gi|123|ref|WP_999.1|'' @ r"
  define g1 where "g1 = (case re_search bracket_match_at h of
                          Some g \<Rightarrow> Some g
                        | None \<Rightarrow> re_search gn_match_at h)"
  have parts: "py_split CHR ''|'' h =
      ''gi'' # ''123'' # ''ref'' # ''WP_999.1'' # py_split CHR ''|'' r"
    unfolding h_def by (rule split_header_prefix)
  have g1: "g1 = None \<or> (\<exists>g. g \<noteq> [] \<and> g1 = Some g)"
  proof (cases g1)
    case None
    then show ?thesis by simp
  next
    case (Some g)
    then have "re_search bracket_match_at h = Some g \<or> re_search gn_match_at h = Some g"
      by (auto simp: g1_def split: option.splits)
    then have "g \<noteq> []"
      using re_search_nonempty [of bracket_match_at h g] re_search_nonempty [of gn_match_at h g]
        bracket_match_at_nonempty gn_match_at_nonempty by blast
    with Some show ?thesis by simp
  qed
  have ph: "process_header (''>gi|123|ref|WP_999.1|'' @ rest) =
      (Some ''WP_999.1'', if \<not> truthy g1 then Some (version_stripped ''WP_999.1'') else g1)"
    unfolding process_header_def Let_def r h_def [symmetric] g1_def [symmetric] parts
      header_accession_loop_ref
    by simp
  have vs: "version_stripped ''WP_999.1'' = ''WP_999''"
    by (simp add: version_stripped_def)
  from g1 show ?thesis
  proof
    assume "g1 = None"
    with ph vs show ?thesis by simp
  next
    assume "\<exists>g. g \<noteq> [] \<and> g1 = Some g"
    then obtain g where "g \<noteq> []" "g1 = Some g" by blast
    with ph show ?thesis by simp
  qed
qed

lemma dict_set_keys: "fst ` set (dict_set d k v) = insert k (fst ` set d)"
  by (induction d k v rule: dict_set.induct) auto

lemma annotation_map_loop_keys_mono:
  "fst ` set d \<subseteq> fst ` set (annotation_map_loop d lines)"
proof (induction lines arbitrary: d)
  case Nil
  show ?case by simp
next
  case (Cons line lines)
  show ?case
  proof (cases "take 1 line = ''>''")
    case False
    with Cons show ?thesis by simp
  next
    case True
    obtain a g where pg: "process_header line = (a, g)" by (cases "process_header line")
    show ?thesis
    proof (cases "\<exists>a' g'. a = Some a' \<and> g = Some g' \<and> a' \<noteq> [] \<and> g' \<noteq> []")
      case True
      then obtain a' g' where ag: "a = Some a'" "g = Some g'" "a' \<noteq> []" "g' \<noteq> []"
        by blast
      have "fst ` set d \<subseteq> fst ` set (dict_set (dict_set d a' g') (version_stripped a') g')"
        by (auto simp: dict_set_keys)
      also have "\<dots> \<subseteq> fst ` set (annotation_map_loop
          (dict_set (dict_set d a' g') (version_stripped a') g') lines)"
        by (rule Cons)
      finally show ?thesis using \<open>take 1 line = ''>''\<close> pg ag by simp
    next
      case False
      with \<open>take 1 line = ''>''\<close> pg Cons [of d] show ?thesis
        by (cases a; cases g) auto
    qed
  qed
qed

lemma annotation_map_loop_registers:
  "line \<in> set lines \<Longrightarrow> take 1 line = ''>'' \<Longrightarrow> process_header line = (Some a, Some g) \<Longrightarrow>
   a \<noteq> [] \<Longrightarrow> g \<noteq> [] \<Longrightarrow> a \<in> fst ` set (annotation_map_loop d lines)"
proof (induction lines arbitrary: d)
  case Nil
  then show ?case by simp
next
  case (Cons l lines)
  show ?case
  proof (cases "l = line")
    case True
    have "a \<in> fst ` set (dict_set (dict_set d a g) (version_stripped a) g)"
      by (simp add: dict_set_keys)
    then have "a \<in> fst ` set (annotation_map_loop
        (dict_set (dict_set d a g) (version_stripped a) g) lines)"
      using annotation_map_loop_keys_mono by blast
    with True Cons.prems show ?thesis by simp
  next
    case False
    with Cons.prems have "line \<in> set lines" by simp
    note ih = Cons.IH [OF this Cons.prems(2-5)]
    obtain a1 g1 where pg: "process_header l = (a1, g1)" by (cases "process_header l")
    show ?thesis
      using ih pg by (cases a1; cases g1) (auto)
  qed
qed

lemma fold_unique_keys:
  "fst ` set (fold (\<lambda>(acc, name) u. dict_set u (version_stripped acc) name) m u) =
     fst ` set u \<union> version_stripped ` fst ` set m"
proof (induction m arbitrary: u)
  case Nil
  show ?case by simp
next
  case (Cons x m)
  obtain acc name where x: "x = (acc, name)" by (cases x)
  have "fst ` set (fold (\<lambda>(acc, name) u. dict_set u (version_stripped acc) name) (x # m) u) =
      fst ` set (dict_set u (version_stripped acc) name) \<union> version_stripped ` fst ` set m"
    unfolding x by (simp add: Cons)
  also have "\<dots> = fst ` set u \<union> version_stripped ` fst ` set (x # m)"
    unfolding dict_set_keys x by auto
  finally show ?case .
qed

lemma unique_map_keys: "fst ` set (unique_map m) = version_stripped ` fst ` set m"
  by (simp add: unique_map_def fold_unique_keys)

lemma version_stripped_no_dot: "CHR ''.'' \<notin> set (version_stripped s)"
  unfolding version_stripped_def
  by (induction s) (auto split: list.splits)

text \<open>
  Claim C6. For every header \<^verbatim>\<open>>gi|123|ref|WP_999.1|...\<close>, whatever follows the fourth
  bar: \<^verbatim>\<open>process_header\<close> extracts the accession \<^verbatim>\<open>WP_999.1\<close>; when the header is a
  line of the FASTA file, the table that \<^verbatim>\<open>main\<close> writes has the version-stripped key
  \<^verbatim>\<open>WP_999\<close>, and it never has the key \<^verbatim>\<open>WP_999.1\<close>; and both copies of
  \<^verbatim>\<open>parse_hmrg_accession\<close> return \<^verbatim>\<open>WP_999\<close> on a subject id
  \<^verbatim>\<open>gi|123|ref|WP_999.1|...\<close>. Builder and translator meet on the same key.
\<close>

theorem create_hmrg_annotation_map_key_agrees:
  "fst (process_header (''>gi|123|ref|WP_999.1|'' @ rest)) = Some ''WP_999.1'' \<and>
   (''>gi|123|ref|WP_999.1|'' @ rest \<in> set lines \<longrightarrow>
      ''WP_999'' \<in> fst ` set (create_hmrg_annotation_map lines)) \<and>
   ''WP_999.1'' \<notin> fst ` set (create_hmrg_annotation_map lines) \<and>
   parse_hmrg_accession (''gi|123|ref|WP_999.1|'' @ rest') = ''WP_999'' \<and>
   parse_hmrg_accession_abundance (''gi|123|ref|WP_999.1|'' @ rest') = ''WP_999''"
proof (intro conjI impI)
  obtain g where g: "g \<noteq> []"
      "process_header (''>gi|123|ref|WP_999.1|'' @ rest) = (Some ''WP_999.1'', Some g)"
    using process_header_ref by blast
  then show "fst (process_header (''>gi|123|ref|WP_999.1|'' @ rest)) = Some ''WP_999.1''"
    by simp
  assume "''>gi|123|ref|WP_999.1|'' @ rest \<in> set lines"
  then have "''WP_999.1'' \<in> fst ` set (annotation_map_loop [] lines)"
    using g by (intro annotation_map_loop_registers [where g = g]) simp_all
  then have "version_stripped ''WP_999.1'' \<in> fst ` set (create_hmrg_annotation_map lines)"
    unfolding create_hmrg_annotation_map_def unique_map_keys by (rule imageI)
  then show "''WP_999'' \<in> fst ` set (create_hmrg_annotation_map lines)"
    by (simp add: version_stripped_def)
next
  show "''WP_999.1'' \<notin> fst ` set (create_hmrg_annotation_map lines)"
  proof
    assume "''WP_999.1'' \<in> fst ` set (create_hmrg_annotation_map lines)"
    then obtain a where "''WP_999.1'' = version_stripped a"
      unfolding create_hmrg_annotation_map_def unique_map_keys by blast
    then have "CHR ''.'' \<in> set (version_stripped a)"
      by (simp add: \<open>''WP_999.1'' = version_stripped a\<close> [symmetric])
    then show False
      using version_stripped_no_dot by blast
  qed
next
  have ns: "\<not> is_space CHR ''|''"
    by (simp add: is_space_def)
  have "py_strip (''gi|123|ref|WP_999.1'' @ CHR ''|'' # rest') =
      rev (dropWhile is_space (rev (''gi|123|ref|WP_999.1'' @ CHR ''|'' # rest')))"
    unfolding py_strip_def by (simp add: is_space_def)
  also have "\<dots> = ''gi|123|ref|WP_999.1'' @ CHR ''|'' # rev (dropWhile is_space (rev rest'))"
    by (rule rstrip_append) (rule ns)
  finally have s: "py_strip (''gi|123|ref|WP_999.1|'' @ rest') =
      ''gi|123|ref|WP_999.1|'' @ rev (dropWhile is_space (rev rest'))"
    by simp
  have l: "accession_loop (''gi'' # ''123'' # ''ref'' # ''WP_999.1'' # ps) db_codes =
      Inr (Some ''WP_999'')" for ps
    by (simp add: db_codes_def py_get_def version_stripped_def)
  have la: "accession_loop_abundance (''gi'' # ''123'' # ''ref'' # ''WP_999.1'' # ps) db_codes =
      Inr (Some ''WP_999'')" for ps
    by (simp add: db_codes_def py_get_def version_stripped_def)
  show "parse_hmrg_accession (''gi|123|ref|WP_999.1|'' @ rest') = ''WP_999''"
    unfolding parse_hmrg_accession_def parse_hmrg_accession_try_def Let_def s
      split_header_prefix l
    by simp
  show "parse_hmrg_accession_abundance (''gi|123|ref|WP_999.1|'' @ rest') = ''WP_999''"
    unfolding parse_hmrg_accession_abundance_def parse_hmrg_accession_abundance_try_def Let_def s
      split_header_prefix la
    by simp
qed

theorem create_hmrg_annotation_map_key_agrees_witness:
  "fst (process_header ''>gi|123|ref|WP_999.1| efflux pump'') = Some ''WP_999.1'' \<and>
   ''WP_999'' \<in> fst ` set (create_hmrg_annotation_map [''>gi|123|ref|WP_999.1| efflux pump'']) \<and>
   ''WP_999.1'' \<notin> fst ` set (create_hmrg_annotation_map [''>gi|123|ref|WP_999.1| efflux pump'']) \<and>
   parse_hmrg_accession ''gi|123|ref|WP_999.1|'' = ''WP_999'' \<and>
   parse_hmrg_accession_abundance ''gi|123|ref|WP_999.1|'' = ''WP_999''"
  using create_hmrg_annotation_map_key_agrees
    [of "'' efflux pump''" "[''>gi|123|ref|WP_999.1| efflux pump'']" "[]"]
  by simp

section \<open>HeaderParser: the bracketed token\<close>

lemma bracket_match_at_token:
  assumes "X \<noteq> []" "CHR '']'' \<notin> set X" "list_all is_space ws"
  shows "bracket_match_at (CHR ''['' # X @ CHR '']'' # ws) = Some X"
proof -
  have nx: "\<forall>x\<in>set X. x \<noteq> CHR '']''"
    using assms(2) by auto
  have t: "takeWhile (\<lambda>x. x \<noteq> CHR '']'') (X @ CHR '']'' # ws) = X"
    by (simp add: nx)
  have d: "dropWhile (\<lambda>x. x \<noteq> CHR '']'') (X @ CHR '']'' # ws) = CHR '']'' # ws"
    by (simp add: nx)
  show ?thesis
    unfolding bracket_match_at_def using assms(1,3) by (simp add: t d)
qed

lemma bracket_match_at_closed_before:
  assumes "CHR '']'' \<in> set pre" "\<not> is_space z"
  shows "bracket_match_at (c # pre @ z # rest) = None"
proof (cases "c = CHR ''[''")
  case False
  then show ?thesis by (simp add: bracket_match_at_def)
next
  case True
  have "dropWhile (\<lambda>x. x \<noteq> CHR '']'') pre \<noteq> []"
    using assms(1) by simp
  then obtain y t where yt: "dropWhile (\<lambda>x. x \<noteq> CHR '']'') pre = y # t"
    by (cases "dropWhile (\<lambda>x. x \<noteq> CHR '']'') pre") auto
  have d: "dropWhile (\<lambda>x. x \<noteq> CHR '']'') (pre @ z # rest) = y # t @ z # rest"
    using assms(1) yt by (simp add: dropWhile_append1)
  show ?thesis
    unfolding bracket_match_at_def using assms(2) by (simp add: d Let_def)
qed

lemma re_search_bracket_token:
  assumes "X \<noteq> []" "CHR '']'' \<notin> set X" "list_all is_space ws"
  shows "brackets_closed pre \<Longrightarrow>
    re_search bracket_match_at (pre @ CHR ''['' # X @ CHR '']'' # ws) = Some X"
proof (induction pre)
  case Nil
  have "re_search bracket_match_at (CHR ''['' # X @ CHR '']'' # ws) =
      (case bracket_match_at (CHR ''['' # X @ CHR '']'' # ws) of
         Some g \<Rightarrow> Some g
       | None \<Rightarrow> re_search bracket_match_at (X @ CHR '']'' # ws))"
    by (rule re_search.simps(2))
  also have "\<dots> = Some X"
    unfolding bracket_match_at_token [OF assms] by simp
  finally show ?case by simp
next
  case (Cons c pre)
  from Cons.prems have "brackets_closed pre"
    by simp
  then have ih: "re_search bracket_match_at (pre @ CHR ''['' # X @ CHR '']'' # ws) = Some X"
    by (rule Cons.IH)
  have none: "bracket_match_at (c # pre @ CHR ''['' # X @ CHR '']'' # ws) = None"
  proof (cases "c = CHR ''[''")
    case True
    with Cons.prems have "CHR '']'' \<in> set pre"
      by simp
    then show ?thesis
      by (rule bracket_match_at_closed_before) (simp add: is_space_def)
  next
    case False
    then show ?thesis by (simp add: bracket_match_at_def)
  qed
  have "re_search bracket_match_at (c # pre @ CHR ''['' # X @ CHR '']'' # ws) =
      (case bracket_match_at (c # pre @ CHR ''['' # X @ CHR '']'' # ws) of
         Some g \<Rightarrow> Some g
       | None \<Rightarrow> re_search bracket_match_at (pre @ CHR ''['' # X @ CHR '']'' # ws))"
    by (rule re_search.simps(2))
  also have "\<dots> = Some X"
    unfolding none ih by simp
  finally show ?case by simp
qed

text \<open>
  Claim C8 as stated: a header that ends with a bracketed token \<^verbatim>\<open>[X]\<close> gets \<open>X\<close> as
  its gene name, before any \<^verbatim>\<open>GN=\<close> field. The bracket pattern admits no closing
  bracket inside the token and is searched from the left. The header
  \<^verbatim>\<open>>sp|P1|X GN=abc [[Clostridium] difficile]\<close> ends with a bracketed token, the pattern
  finds no match in it, and the gene name is \<^verbatim>\<open>abc\<close>, taken from the \<^verbatim>\<open>GN=\<close> field.
  The header \<^verbatim>\<open>>sp|P1|GN=abc [note [acrF]\<close> ends with \<^verbatim>\<open>[acrF]\<close>, the match starts
  at the earlier opening bracket, and the gene name is \<^verbatim>\<open>note [acrF\<close>.
\<close>

theorem process_header_bracket_not_verbatim:
  "snd (process_header ''>sp|P1|X GN=abc [[Clostridium] difficile]'') = Some ''abc'' \<and>
   snd (process_header ''>sp|P1|GN=abc [note [acrF]'') = Some ''note [acrF''"
  by code_simp

text \<open>
  Claim C8, amended. Let the header, stripped of surrounding white space and of
  \<^verbatim>\<open>>\<close> as \<^verbatim>\<open>process_header\<close> strips it, end with \<^verbatim>\<open>[X]\<close> and optional white
  space, where \<open>X\<close> is not empty and has no closing bracket, and let every opening
  bracket of the text before the token be followed by a closing one in that text. Then the gene name
  is \<open>X\<close>, whatever else the header holds: a \<^verbatim>\<open>GN=\<close> field is never consulted, and
  the accession fallbacks do not replace the name.
\<close>

theorem process_header_bracket_priority:
  assumes "py_strip_char CHR ''>'' (py_strip header) = pre @ ''['' @ X @ '']'' @ ws"
    and "X \<noteq> []" and "CHR '']'' \<notin> set X" and "list_all is_space ws"
    and "brackets_closed pre"
  shows "snd (process_header header) = Some X"
proof -
  have "re_search bracket_match_at (py_strip_char CHR ''>'' (py_strip header)) = Some X"
    unfolding assms(1) using re_search_bracket_token [OF assms(2-5)] by simp
  then show ?thesis
    using assms(2) by (simp add: process_header_def Let_def)
qed

theorem process_header_bracket_priority_witness:
  "snd (process_header ''>BAC0001|acrF|sp|P24181|ACRF_ECOLI GN=envD OS=x [acrF/envD]'') =
     Some ''acrF/envD''"
proof -
  have "py_strip_char CHR ''>''
      (py_strip ''>BAC0001|acrF|sp|P24181|ACRF_ECOLI GN=envD OS=x [acrF/envD]'') =
      ''BAC0001|acrF|sp|P24181|ACRF_ECOLI GN=envD OS=x '' @ ''['' @ ''acrF/envD'' @ '']'' @ []"
    by code_simp
  from process_header_bracket_priority [OF this] show ?thesis by simp
qed

section \<open>Best hits\<close>

lemma mset_two_cases: "mset ys = mset [a, b] \<Longrightarrow> ys = [a, b] \<or> ys = [b, a]"
proof -
  assume m: "mset ys = mset [a, b]"
  then have "length ys = 2"
    using mset_eq_length by fastforce
  then obtain x y where ys: "ys = [x, y]"
    by (cases ys; cases "tl ys") auto
  with m show ?thesis
    by (auto simp: add_eq_conv_ex)
qed

text \<open>
  Claim C1 says that the loader keeps, for every protein, the row whose bit score is the
  largest as a number. The hit files are read with \<^verbatim>\<open>dtype=str\<close>, so
  \<^verbatim>\<open>sort_values('bitscore', ascending=False)\<close> orders the scores as strings, and
  \<^verbatim>\<open>99\<close> comes before \<^verbatim>\<open>100\<close>. For a protein with one hit of bit score 100 and one
  of bit score 99, whatever sorted frame the sorting routine returns,
  \<^verbatim>\<open>drop_duplicates\<close> keeps the hit of bit score 99.
\<close>

theorem load_hits_lexicographic:
  assumes "sort_values_desc_na bitscore
      [\<lparr>protein_id = Some ''k141_7_2'', sseqid = Some ''gb|A1|ceoB'', pident = Some ''98.1'',
        evalue = Some ''1e-60'', bitscore = Some ''100''\<rparr>,
       \<lparr>protein_id = Some ''k141_7_2'', sseqid = Some ''gb|A2|acrB'', pident = Some ''97.5'',
        evalue = Some ''1e-59'', bitscore = Some ''99''\<rparr>]
      (sort_values
        [\<lparr>protein_id = Some ''k141_7_2'', sseqid = Some ''gb|A1|ceoB'', pident = Some ''98.1'',
          evalue = Some ''1e-60'', bitscore = Some ''100''\<rparr>,
         \<lparr>protein_id = Some ''k141_7_2'', sseqid = Some ''gb|A2|acrB'', pident = Some ''97.5'',
          evalue = Some ''1e-59'', bitscore = Some ''99''\<rparr>])"
  shows "load_hits sort_values
      [\<lparr>protein_id = Some ''k141_7_2'', sseqid = Some ''gb|A1|ceoB'', pident = Some ''98.1'',
        evalue = Some ''1e-60'', bitscore = Some ''100''\<rparr>,
       \<lparr>protein_id = Some ''k141_7_2'', sseqid = Some ''gb|A2|acrB'', pident = Some ''97.5'',
        evalue = Some ''1e-59'', bitscore = Some ''99''\<rparr>] =
      [\<lparr>protein_id = Some ''k141_7_2'', sseqid = Some ''gb|A2|acrB'', pident = Some ''97.5'',
        evalue = Some ''1e-59'', bitscore = Some ''99''\<rparr>]"
proof -
  define r100 where "r100 = \<lparr>protein_id = Some ''k141_7_2'', sseqid = Some ''gb|A1|ceoB'',
      pident = Some ''98.1'', evalue = Some ''1e-60'', bitscore = Some ''100''\<rparr>"
  define r99 where "r99 = \<lparr>protein_id = Some ''k141_7_2'', sseqid = Some ''gb|A2|acrB'',
      pident = Some ''97.5'', evalue = Some ''1e-59'', bitscore = Some ''99''\<rparr>"
  define ys where "ys = sort_values [r100, r99]"
  have b: "bitscore r100 = Some ''100''" "bitscore r99 = Some ''99''"
    "protein_id r100 = Some ''k141_7_2''" "protein_id r99 = Some ''k141_7_2''"
    by (simp_all add: r100_def r99_def)
  have a: "sort_values_desc_na bitscore [r100, r99] ys"
    using assms unfolding r100_def r99_def ys_def .
  then have d: "length ys \<le> 2"
    by (simp add: sort_values_desc_na_def b Let_def)
  with a have m': "mset ys = mset [r100, r99]"
    and s': "sorted (rev (map (\<lambda>r. the (bitscore r)) ys))"
    by (simp_all add: sort_values_desc_na_def sort_values_desc_def b Let_def)
  have gt: "\<not> (''99'' :: string) \<le> ''100''"
    by code_simp
  from mset_two_cases [OF m'] have "ys = [r99, r100]"
  proof
    assume "ys = [r100, r99]"
    with s' gt show ?thesis by (simp add: b)
  next
    assume "ys = [r99, r100]"
    then show ?thesis .
  qed
  then have "load_hits sort_values [r100, r99] = [r99]"
    by (simp add: load_hits_def ys_def [symmetric] b)
  then show ?thesis
    unfolding r100_def r99_def .
qed

theorem load_hits_lexicographic_witness:
  "load_hits
      (\<lambda>rows.
        [\<lparr>protein_id = Some ''k141_7_2'', sseqid = Some ''gb|A2|acrB'', pident = Some ''97.5'',
          evalue = Some ''1e-59'', bitscore = Some ''99''\<rparr>,
         \<lparr>protein_id = Some ''k141_7_2'', sseqid = Some ''gb|A1|ceoB'', pident = Some ''98.1'',
          evalue = Some ''1e-60'', bitscore = Some ''100''\<rparr>])
      [\<lparr>protein_id = Some ''k141_7_2'', sseqid = Some ''gb|A1|ceoB'', pident = Some ''98.1'',
        evalue = Some ''1e-60'', bitscore = Some ''100''\<rparr>,
       \<lparr>protein_id = Some ''k141_7_2'', sseqid = Some ''gb|A2|acrB'', pident = Some ''97.5'',
        evalue = Some ''1e-59'', bitscore = Some ''99''\<rparr>] =
      [\<lparr>protein_id = Some ''k141_7_2'', sseqid = Some ''gb|A2|acrB'', pident = Some ''97.5'',
        evalue = Some ''1e-59'', bitscore = Some ''99''\<rparr>]"
proof -
  have "sort_values_desc_na bitscore
      [\<lparr>protein_id = Some ''k141_7_2'', sseqid = Some ''gb|A1|ceoB'', pident = Some ''98.1'',
        evalue = Some ''1e-60'', bitscore = Some ''100''\<rparr>,
       \<lparr>protein_id = Some ''k141_7_2'', sseqid = Some ''gb|A2|acrB'', pident = Some ''97.5'',
        evalue = Some ''1e-59'', bitscore = Some ''99''\<rparr>]
      [\<lparr>protein_id = Some ''k141_7_2'', sseqid = Some ''gb|A2|acrB'', pident = Some ''97.5'',
        evalue = Some ''1e-59'', bitscore = Some ''99''\<rparr>,
       \<lparr>protein_id = Some ''k141_7_2'', sseqid = Some ''gb|A1|ceoB'', pident = Some ''98.1'',
        evalue = Some ''1e-60'', bitscore = Some ''100''\<rparr>]"
    by code_simp
  then show ?thesis
    by (rule load_hits_lexicographic)
qed

section \<open>Facts about frames\<close>

lemma py_unique_set: "set (py_unique xs) = set xs"
  by (induction xs rule: py_unique.induct) auto

lemma py_unique_distinct: "distinct (py_unique xs)"
  by (induction xs rule: py_unique.induct) (auto simp: py_unique_set)

lemma dropna_set: "set (dropna xs) = {x. Some x \<in> set xs}"
  by (induction xs rule: dropna.induct) auto

lemma groupby_keys_set: "set (groupby_keys key rows) = {k. \<exists>r \<in> set rows. key r = Some k}"
  by (auto simp: groupby_keys_def dropna_set image_iff) metis


lemma groupby_keys_sorted: "sorted (groupby_keys key rows)"
  by (simp add: groupby_keys_def)




lemma counter_items_set:
  "(x, n) \<in> set (counter_items xs) \<longleftrightarrow> x \<in> set xs \<and> n = count_list xs x"
  by (auto simp: counter_items_def py_unique_set)

lemma counter_items_keys: "map fst (counter_items xs) = py_unique xs"
  by (simp add: counter_items_def comp_def)

lemma sort_values_desc_set: "sort_values_desc key xs ys \<Longrightarrow> set ys = set xs"
  by (auto simp: sort_values_desc_def dest: mset_eq_setD)

lemma sort_values_desc_distinct:
  "sort_values_desc key xs ys \<Longrightarrow> distinct (map f xs) \<Longrightarrow> distinct (map f ys)"
proof -
  assume a: "sort_values_desc key xs ys" and d: "distinct (map f xs)"
  from a have "mset (map f ys) = mset (map f xs)"
    by (simp add: sort_values_desc_def)
  then show ?thesis
    using d mset_eq_imp_distinct_iff by blast
qed


lemma count_list_map_filter: "count_list (map f xs) y = length (filter (\<lambda>x. f x = y) xs)"
  by (induction xs) simp_all

section \<open>Colocalized contigs\<close>

lemma colocalized_contigs_iff:
  "c \<in> colocalized_contigs anns \<longleftrightarrow>
     ''ARG'' \<in> gene_type ` {r \<in> set anns. contig_id r = Some c} \<and>
     ''HMRG'' \<in> gene_type ` {r \<in> set anns. contig_id r = Some c}"
proof -
  have "c \<in> colocalized_contigs anns \<longleftrightarrow>
      c \<in> set (groupby_keys contig_id anns) \<and>
      ''ARG'' \<in> set (map gene_type (filter (\<lambda>r. contig_id r = Some c) anns)) \<and>
      ''HMRG'' \<in> set (map gene_type (filter (\<lambda>r. contig_id r = Some c) anns))"
    by (auto simp: colocalized_contigs_def contig_summary_def groupby_def py_unique_set image_iff)
  also have "\<dots> \<longleftrightarrow>
      ''ARG'' \<in> gene_type ` {r \<in> set anns. contig_id r = Some c} \<and>
      ''HMRG'' \<in> gene_type ` {r \<in> set anns. contig_id r = Some c}"
    by (auto simp: groupby_keys_set)
  finally show ?thesis .
qed


lemma df_card_rows:
  "gene_type ` {r \<in> set (df_card sort_values rows). contig_id r = Some c} =
     (if \<exists>h \<in> set (load_hits sort_values rows). map_option rsplit_head (protein_id h) = Some c
      then {''ARG''} else {})"
  by (force simp: df_card_def)

lemma df_bacmet_rows:
  "gene_type ` {r \<in> set (df_bacmet sort_values hmrg_map rows). contig_id r = Some c} =
     (if \<exists>h \<in> set (load_hits sort_values rows). map_option rsplit_head (protein_id h) = Some c
      then {''HMRG''} else {})"
  by (force simp: df_bacmet_def Let_def)

lemma colocalized_contigs_hits:
  "c \<in> colocalized_contigs (df_annotations sort_values hmrg_map card_hits bacmet_hits) \<longleftrightarrow>
     (\<exists>h \<in> set (load_hits sort_values card_hits). map_option rsplit_head (protein_id h) = Some c) \<and>
     (\<exists>h \<in> set (load_hits sort_values bacmet_hits). map_option rsplit_head (protein_id h) = Some c)"
proof -
  have u: "{r \<in> set (df_annotations sort_values hmrg_map card_hits bacmet_hits). contig_id r = Some c} =
      {r \<in> set (df_card sort_values card_hits). contig_id r = Some c} \<union>
      {r \<in> set (df_bacmet sort_values hmrg_map bacmet_hits). contig_id r = Some c}"
    by (auto simp: df_annotations_def)
  show ?thesis
    unfolding colocalized_contigs_iff u image_Un df_card_rows df_bacmet_rows
    by simp
qed


text \<open>
  Claim C3. A contig is in \<^verbatim>\<open>colocalized_contigs\<close> exactly when the gene types of the
  rows of \<^verbatim>\<open>df_annotations\<close> with that contig hold both \<^verbatim>\<open>ARG\<close> and \<^verbatim>\<open>HMRG\<close>; in
  terms of the hits, when a kept CARD hit and a kept BacMet hit lie on it. The function
  prints the information and returns, before any report is written and with no
  exception, exactly when the three files exist, both hit files are read, and no contig is
  colocalized; it goes on to the report exactly when some contig is.
\<close>

theorem analyze_sample_colocalized:
  "(c \<in> colocalized_contigs anns \<longleftrightarrow>
      ''ARG'' \<in> gene_type ` {r \<in> set anns. contig_id r = Some c} \<and>
      ''HMRG'' \<in> gene_type ` {r \<in> set anns. contig_id r = Some c}) \<and>
   (c \<in> colocalized_contigs (df_annotations sort_values hmrg_map card_hits bacmet_hits) \<longleftrightarrow>
      (\<exists>h \<in> set (load_hits sort_values card_hits).
          map_option rsplit_head (protein_id h) = Some c) \<and>
      (\<exists>h \<in> set (load_hits sort_values bacmet_hits).
          map_option rsplit_head (protein_id h) = Some c)) \<and>
   (analyze_sample sort_values hmrg_map card_file bacmet_file gff_file = Info_no_colocalized \<longleftrightarrow>
      gff_file \<noteq> Absent \<and>
      (\<exists>card_rows bacmet_rows. card_file = Table card_rows \<and> bacmet_file = Table bacmet_rows \<and>
         colocalized_contigs (df_annotations sort_values hmrg_map card_rows bacmet_rows) = {})) \<and>
   (analyze_sample sort_values hmrg_map card_file bacmet_file gff_file = Reporting contigs \<longleftrightarrow>
      gff_file \<noteq> Absent \<and> contigs \<noteq> {} \<and>
      (\<exists>card_rows bacmet_rows. card_file = Table card_rows \<and> bacmet_file = Table bacmet_rows \<and>
         contigs = colocalized_contigs (df_annotations sort_values hmrg_map card_rows bacmet_rows)))"
proof (intro conjI)
  show "c \<in> colocalized_contigs anns \<longleftrightarrow>
      ''ARG'' \<in> gene_type ` {r \<in> set anns. contig_id r = Some c} \<and>
      ''HMRG'' \<in> gene_type ` {r \<in> set anns. contig_id r = Some c}"
    by (rule colocalized_contigs_iff)
  show "c \<in> colocalized_contigs (df_annotations sort_values hmrg_map card_hits bacmet_hits) \<longleftrightarrow>
      (\<exists>h \<in> set (load_hits sort_values card_hits).
          map_option rsplit_head (protein_id h) = Some c) \<and>
      (\<exists>h \<in> set (load_hits sort_values bacmet_hits).
          map_option rsplit_head (protein_id h) = Some c)"
    by (rule colocalized_contigs_hits)
  show "analyze_sample sort_values hmrg_map card_file bacmet_file gff_file = Info_no_colocalized \<longleftrightarrow>
      gff_file \<noteq> Absent \<and>
      (\<exists>card_rows bacmet_rows. card_file = Table card_rows \<and> bacmet_file = Table bacmet_rows \<and>
         colocalized_contigs (df_annotations sort_values hmrg_map card_rows bacmet_rows) = {})"
    by (cases card_file; cases bacmet_file) (auto simp: analyze_sample_def Let_def)
  show "analyze_sample sort_values hmrg_map card_file bacmet_file gff_file = Reporting contigs \<longleftrightarrow>
      gff_file \<noteq> Absent \<and> contigs \<noteq> {} \<and>
      (\<exists>card_rows bacmet_rows. card_file = Table card_rows \<and> bacmet_file = Table bacmet_rows \<and>
         contigs = colocalized_contigs (df_annotations sort_values hmrg_map card_rows bacmet_rows))"
    by (cases card_file; cases bacmet_file) (auto simp: analyze_sample_def Let_def)
qed



theorem analyze_sample_colocalized_witness:
  "analyze_sample (\<lambda>rows. rows) (\<lambda>acc. None)
      (Table [\<lparr>protein_id = Some ''k141_7_2'', sseqid = Some ''gb|A1|ceoB'', pident = Some ''98.1'',
                evalue = Some ''1e-60'', bitscore = Some ''100''\<rparr>])
      (Table [\<lparr>protein_id = Some ''k141_9_1'', sseqid = Some ''BAC0001|acrF|sp|P24181|X'',
                pident = Some ''90.0'', evalue = Some ''1e-30'', bitscore = Some ''80''\<rparr>])
      (Table [()]) = Info_no_colocalized \<and>
   analyze_sample (\<lambda>rows. rows) (\<lambda>acc. None)
      (Table [\<lparr>protein_id = Some ''k141_7_2'', sseqid = Some ''gb|A1|ceoB'', pident = Some ''98.1'',
                evalue = Some ''1e-60'', bitscore = Some ''100''\<rparr>])
      (Table [\<lparr>protein_id = Some ''k141_7_5'', sseqid = Some ''BAC0001|acrF|sp|P24181|X'',
                pident = Some ''90.0'', evalue = Some ''1e-30'', bitscore = Some ''80''\<rparr>])
      (Table [()]) = Reporting {''k141_7''}"
proof -
  have e: "colocalized_contigs (df_annotations (\<lambda>rows. rows) (\<lambda>acc. None)
      [\<lparr>protein_id = Some ''k141_7_2'', sseqid = Some ''gb|A1|ceoB'', pident = Some ''98.1'',
        evalue = Some ''1e-60'', bitscore = Some ''100''\<rparr>]
      [\<lparr>protein_id = Some ''k141_9_1'', sseqid = Some ''BAC0001|acrF|sp|P24181|X'',
        pident = Some ''90.0'', evalue = Some ''1e-30'', bitscore = Some ''80''\<rparr>]) = {}"
    by code_simp
  have r: "colocalized_contigs (df_annotations (\<lambda>rows. rows) (\<lambda>acc. None)
      [\<lparr>protein_id = Some ''k141_7_2'', sseqid = Some ''gb|A1|ceoB'', pident = Some ''98.1'',
        evalue = Some ''1e-60'', bitscore = Some ''100''\<rparr>]
      [\<lparr>protein_id = Some ''k141_7_5'', sseqid = Some ''BAC0001|acrF|sp|P24181|X'',
        pident = Some ''90.0'', evalue = Some ''1e-30'', bitscore = Some ''80''\<rparr>]) = {''k141_7''}"
    by code_simp
  note t = analyze_sample_colocalized [where sort_values = "\<lambda>rows. rows" and hmrg_map = "\<lambda>acc. None"
      and gff_file = "Table [()]"]
  have a: "analyze_sample (\<lambda>rows. rows) (\<lambda>acc. None)
      (Table [\<lparr>protein_id = Some ''k141_7_2'', sseqid = Some ''gb|A1|ceoB'', pident = Some ''98.1'',
                evalue = Some ''1e-60'', bitscore = Some ''100''\<rparr>])
      (Table [\<lparr>protein_id = Some ''k141_9_1'', sseqid = Some ''BAC0001|acrF|sp|P24181|X'',
                pident = Some ''90.0'', evalue = Some ''1e-30'', bitscore = Some ''80''\<rparr>])
      (Table [()]) = Info_no_colocalized"
    by (rule t [THEN conjunct2, THEN conjunct2, THEN conjunct1, THEN iffD2])
      (intro conjI exI, simp, rule refl, rule refl, rule e)
  have b: "analyze_sample (\<lambda>rows. rows) (\<lambda>acc. None)
      (Table [\<lparr>protein_id = Some ''k141_7_2'', sseqid = Some ''gb|A1|ceoB'', pident = Some ''98.1'',
                evalue = Some ''1e-60'', bitscore = Some ''100''\<rparr>])
      (Table [\<lparr>protein_id = Some ''k141_7_5'', sseqid = Some ''BAC0001|acrF|sp|P24181|X'',
                pident = Some ''90.0'', evalue = Some ''1e-30'', bitscore = Some ''80''\<rparr>])
      (Table [()]) = Reporting {''k141_7''}"
    by (rule t [THEN conjunct2, THEN conjunct2, THEN conjunct2, THEN iffD2])
      (intro conjI exI, simp, simp, rule refl, rule refl, rule r [symmetric])
  from a b show ?thesis
    by (rule conjI)
qed


section \<open>Abundance of gene pairs\<close>









section \<open>Abundance of HMRG names\<close>

text \<open>
  Claim C10. Let the sort of \<^verbatim>\<open>value_counts\<close> return the counted names with descending
  counts. If the accession extracted from the subject id of a raw hit is one of the
  sentinels \<^verbatim>\<open>unknown_accession\<close> and \<^verbatim>\<open>parse_error\<close>, and the translation table has
  no entry for it, then the sentinel is the gene name of the hit and the report has a
  row for it, with the number of hits of that name, which is positive. It is counted as
  every name is: a name is reported with the count \<open>n\<close> exactly when \<open>n\<close> is positive and
  is the number of hits with that name; every name has one row, and the counts descend.
\<close>

theorem process_hmrg_abundance_sentinel:
  assumes "sort_values_desc snd (counter_items (map (hmrg_gene_name hmrg_map) rows))
      (sort_values (counter_items (map (hmrg_gene_name hmrg_map) rows)))"
    and "r \<in> set rows"
    and "parse_hmrg_accession_abundance (py_str (sseqid r)) = s"
    and "s = ''unknown_accession'' \<or> s = ''parse_error''"
    and "hmrg_map s = None"
  shows "hmrg_gene_name hmrg_map r = s \<and>
     0 < length (filter (\<lambda>x. hmrg_gene_name hmrg_map x = s) rows) \<and>
     (s, length (filter (\<lambda>x. hmrg_gene_name hmrg_map x = s) rows))
        \<in> set (process_hmrg_abundance sort_values hmrg_map rows) \<and>
     (\<forall>name n. (name, n) \<in> set (process_hmrg_abundance sort_values hmrg_map rows) \<longleftrightarrow>
        0 < n \<and> n = length (filter (\<lambda>x. hmrg_gene_name hmrg_map x = name) rows)) \<and>
     distinct (map fst (process_hmrg_abundance sort_values hmrg_map rows)) \<and>
     sorted (rev (map snd (process_hmrg_abundance sort_values hmrg_map rows)))"
proof -
  define names where "names = map (hmrg_gene_name hmrg_map) rows"
  define report where "report = process_hmrg_abundance sort_values hmrg_map rows"
  have s: "sort_values_desc snd (counter_items names) report"
    using assms(1) unfolding names_def report_def process_hmrg_abundance_def .
  have g: "hmrg_gene_name hmrg_map r = s"
    using assms(3,5) by (simp add: hmrg_gene_name_def Let_def)
  have m: "(name, n) \<in> set report \<longleftrightarrow>
      0 < n \<and> n = length (filter (\<lambda>x. hmrg_gene_name hmrg_map x = name) rows)" for name n
  proof -
    have "(name, n) \<in> set report \<longleftrightarrow> (name, n) \<in> set (counter_items names)"
      using sort_values_desc_set [OF s] by simp
    also have "\<dots> \<longleftrightarrow> name \<in> set names \<and> n = count_list names name"
      by (rule counter_items_set)
    also have "\<dots> \<longleftrightarrow> 0 < n \<and> n = count_list names name"
      using count_list_0_iff [of names name] by auto
    finally show ?thesis
      unfolding names_def count_list_map_filter .
  qed
  from assms(2) g have "r \<in> set (filter (\<lambda>x. hmrg_gene_name hmrg_map x = s) rows)"
    by simp
  then have p: "0 < length (filter (\<lambda>x. hmrg_gene_name hmrg_map x = s) rows)"
    by (rule length_pos_if_in_set)
  with m have i: "(s, length (filter (\<lambda>x. hmrg_gene_name hmrg_map x = s) rows)) \<in> set report"
    by simp
  have "distinct (map fst (counter_items names))"
    unfolding counter_items_keys by (rule py_unique_distinct)
  with s have d: "distinct (map fst report)"
    by (rule sort_values_desc_distinct)
  from s have o: "sorted (rev (map snd report))"
    by (simp add: sort_values_desc_def)
  from g p i m d o show ?thesis
    unfolding report_def by blast
qed

theorem process_hmrg_abundance_sentinel_witness:
  "process_hmrg_abundance (\<lambda>xs. rev (sort_key snd (rev xs))) (map_of [(''WP_1'', ''czcA'')])
       [\<lparr>protein_id = Some ''k141_1_1'', sseqid = Some ''gi|123|ref''\<rparr>,
        \<lparr>protein_id = Some ''k141_1_2'', sseqid = Some ''BAC0001|abeM''\<rparr>,
        \<lparr>protein_id = Some ''k141_2_1'', sseqid = Some ''gi|9|ref|WP_1.1|''\<rparr>,
        \<lparr>protein_id = Some ''k141_2_1'', sseqid = Some ''gi|123|ref''\<rparr>] =
     [(''parse_error'', 2), (''unknown_accession'', 1), (''czcA'', 1)] \<and>
   (''parse_error'', 2) \<in> set (process_hmrg_abundance (\<lambda>xs. rev (sort_key snd (rev xs))) (map_of [(''WP_1'', ''czcA'')])
       [\<lparr>protein_id = Some ''k141_1_1'', sseqid = Some ''gi|123|ref''\<rparr>,
        \<lparr>protein_id = Some ''k141_1_2'', sseqid = Some ''BAC0001|abeM''\<rparr>,
        \<lparr>protein_id = Some ''k141_2_1'', sseqid = Some ''gi|9|ref|WP_1.1|''\<rparr>,
        \<lparr>protein_id = Some ''k141_2_1'', sseqid = Some ''gi|123|ref''\<rparr>])"
proof -
  define rows where "rows = [\<lparr>protein_id = Some ''k141_1_1'', sseqid = Some ''gi|123|ref''\<rparr>,
        \<lparr>protein_id = Some ''k141_1_2'', sseqid = Some ''BAC0001|abeM''\<rparr>,
        \<lparr>protein_id = Some ''k141_2_1'', sseqid = Some ''gi|9|ref|WP_1.1|''\<rparr>,
        \<lparr>protein_id = Some ''k141_2_1'', sseqid = Some ''gi|123|ref''\<rparr>]"
  define hmrg_map where "hmrg_map = map_of [(''WP_1'', ''czcA'')]"
  have e: "process_hmrg_abundance (\<lambda>xs. rev (sort_key snd (rev xs))) hmrg_map rows = [(''parse_error'', 2), (''unknown_accession'', 1), (''czcA'', 1)]"
    unfolding rows_def hmrg_map_def by code_simp
  have c: "sort_values_desc snd (counter_items (map (hmrg_gene_name hmrg_map) rows))
      ((\<lambda>xs. rev (sort_key snd (rev xs))) (counter_items (map (hmrg_gene_name hmrg_map) rows)))"
    unfolding rows_def hmrg_map_def by code_simp
  have r: "\<lparr>protein_id = Some ''k141_1_1'', sseqid = Some ''gi|123|ref''\<rparr> \<in> set rows"
    unfolding rows_def by simp
  have p: "parse_hmrg_accession_abundance (py_str (sseqid \<lparr>protein_id = Some ''k141_1_1'', sseqid = Some ''gi|123|ref''\<rparr>)) = ''parse_error''"
    by code_simp
  have n: "hmrg_map ''parse_error'' = None"
    unfolding hmrg_map_def by simp
  have l: "length (filter (\<lambda>x. hmrg_gene_name hmrg_map x = ''parse_error'') rows) = 2"
    unfolding rows_def hmrg_map_def by code_simp
  have q: "''parse_error'' = ''unknown_accession'' \<or> ''parse_error'' = ''parse_error''"
    by simp
  note t = process_hmrg_abundance_sentinel
      [where sort_values = "\<lambda>xs. rev (sort_key snd (rev xs))" and hmrg_map = hmrg_map
        and rows = rows, OF c r p q n, THEN conjunct2, THEN conjunct2, THEN conjunct1]
  have "(''parse_error'', 2) \<in> set (process_hmrg_abundance (\<lambda>xs. rev (sort_key snd (rev xs))) hmrg_map rows)"
    using t unfolding l by simp
  with e show ?thesis
    unfolding rows_def hmrg_map_def by simp
qed

section \<open>The densest contigs\<close>











end
